theory Spec2Isabelle
  imports Complex_Main
begin

section \<open>Common conventions\<close>

text \<open>
  Python floats are modelled as \<^typ>\<open>real\<close>: arithmetic is exact, and the special values
  of IEEE arithmetic (infinity, not-a-number) are written out as separate constructors at
  the two places of the program that can produce them. Python integers are \<^typ>\<open>int\<close>.
  An exception is a value \<open>Inl e\<close> of a sum type.
\<close>

datatype error = ZeroDivisionError

section \<open>The viewer (view_3d.py)\<close>

subsection \<open>The scene as seen by the viewer\<close>

text \<open>
  The viewer touches the scene through one call only,
  \<^verbatim>\<open>self.scene.apply_transform(t.rotation_matrix(angle, direction))\<close>.
  The scene is therefore the list of rotations handed to it so far, newest first; a rotation
  is kept symbolically as its angle and its axis, exactly as the viewer passes them.
\<close>

type_synonym vec3 = "real \<times> real \<times> real"

datatype transform = Rotation real vec3

type_synonym scene = "transform list"

definition apply_transform :: "transform \<Rightarrow> scene \<Rightarrow> scene" where
  "apply_transform T s = T # s"

subsection \<open>HoloViewer\<close>

record HoloViewer =
  fps :: real
  current_speed :: real
  base_speed :: real
  target_speed :: real
  base_deceleration :: real
  stop_deceleration :: real
  deceleration :: real
  rotation_direction :: int
  camera_current_angle :: real
  camera_current_direction :: vec3
  scene :: scene

text \<open>
  \<^verbatim>\<open>__init__\<close> with the keyword arguments \<^verbatim>\<open>fps\<close>, \<^verbatim>\<open>speed\<close> and \<^verbatim>\<open>base_speed\<close>
  (defaults 24, 0 and 0.125). The call of the parent constructor evaluates
  \<^verbatim>\<open>callback_period=1/self.fps\<close>, which raises for \<^verbatim>\<open>fps = 0\<close>.
\<close>

definition HoloViewer_init :: "scene \<Rightarrow> real \<Rightarrow> real \<Rightarrow> real \<Rightarrow> error + HoloViewer" where
  "HoloViewer_init sc fps0 speed bspeed =
     (if fps0 = 0 then Inl ZeroDivisionError
      else Inr \<lparr>fps = fps0,
                current_speed = speed,
                base_speed = bspeed,
                target_speed = speed,
                base_deceleration = 0.0125,
                stop_deceleration = 0.25,
                deceleration = 0,
                rotation_direction = 1,
                camera_current_angle = 0,
                camera_current_direction = (0, 1, 0),
                scene = sc\<rparr>)"

text \<open>
  \<^verbatim>\<open>_auto_rotate\<close>: one tick of the render loop. \<^verbatim>\<open>delta_time = 1 / self.fps\<close> raises
  ZeroDivisionError when \<^verbatim>\<open>fps\<close> is zero. The redraw \<^verbatim>\<open>_update_view\<close> that follows
  does not change the state modelled here.
\<close>

definition auto_rotate :: "HoloViewer \<Rightarrow> error + HoloViewer" where
  "auto_rotate v =
     (if fps v = 0 then Inl ZeroDivisionError
      else
        let delta_time = 1 / fps v;
            v1 = (if current_speed v > target_speed v then
                    (if current_speed v - target_speed v > max (target_speed v) (deceleration v)
                     then v\<lparr>current_speed :=
                              current_speed v * (1 - delta_time) + target_speed v * delta_time\<rparr>
                     else v\<lparr>current_speed :=
                              max (current_speed v - deceleration v * delta_time) (target_speed v)\<rparr>)
                  else v);
            transform = Rotation (of_int (rotation_direction v1) * current_speed v1 * 2 * pi * delta_time)
                                 (0, 1, 0)
        in Inr (v1\<lparr>scene := apply_transform transform (scene v1)\<rparr>))"

text \<open>\<^verbatim>\<open>set_camera_angle\<close>: undo the stored camera rotation, store and apply the new one.\<close>

definition set_camera_angle :: "HoloViewer \<Rightarrow> real \<Rightarrow> vec3 \<Rightarrow> HoloViewer" where
  "set_camera_angle v angle direction =
     (let v1 = v\<lparr>scene := apply_transform
                    (Rotation (- camera_current_angle v) (camera_current_direction v)) (scene v)\<rparr>;
          v2 = v1\<lparr>camera_current_angle := angle\<rparr>;
          v3 = v2\<lparr>camera_current_direction := direction\<rparr>
      in v3\<lparr>scene := apply_transform
                 (Rotation (camera_current_angle v3) (camera_current_direction v3)) (scene v3)\<rparr>)"

text \<open>\<^verbatim>\<open>swipe\<close>: add the scaled swipe to the signed speed and re-derive direction and speed.\<close>

definition swipe :: "HoloViewer \<Rightarrow> real \<Rightarrow> HoloViewer" where
  "swipe v swipe_magnitude0 =
     (let swipe_magnitude = swipe_magnitude0 / 5;
          v1 = v\<lparr>current_speed := swipe_magnitude + current_speed v * of_int (rotation_direction v)\<rparr>;
          v2 = v1\<lparr>rotation_direction := (if current_speed v1 \<ge> 0 then 1 else - 1)\<rparr>;
          v3 = v2\<lparr>current_speed := current_speed v2 * of_int (rotation_direction v2)\<rparr>;
          v4 = v3\<lparr>target_speed := base_speed v3\<rparr>
      in v4\<lparr>deceleration := base_deceleration v4\<rparr>)"

text \<open>\<^verbatim>\<open>stop_rotation\<close>: aim at speed zero with the fast deceleration.\<close>

definition stop_rotation :: "HoloViewer \<Rightarrow> HoloViewer" where
  "stop_rotation v = (v\<lparr>target_speed := 0\<rparr>)\<lparr>deceleration := stop_deceleration v\<rparr>"

text \<open>A run of \<open>n\<close> ticks with no gesture event in between; it stops at the first exception.\<close>

fun ticks :: "nat \<Rightarrow> HoloViewer \<Rightarrow> error + HoloViewer" where
  "ticks 0 v = Inr v"
| "ticks (Suc n) v = (case auto_rotate v of Inl e \<Rightarrow> Inl e | Inr v' \<Rightarrow> ticks n v')"

text \<open>The viewer that \<^verbatim>\<open>HoloViewer(scene)\<close> builds with the default keyword arguments.\<close>

definition default_viewer :: HoloViewer where
  "default_viewer =
     \<lparr>fps = 24, current_speed = 0, base_speed = 0.125, target_speed = 0,
      base_deceleration = 0.0125, stop_deceleration = 0.25, deceleration = 0,
      rotation_direction = 1, camera_current_angle = 0,
      camera_current_direction = (0, 1, 0), scene = []\<rparr>"

subsection \<open>What the rotations do to the scene\<close>

text \<open>
  The rotation library and the scene graph are collaborators outside the repository. Their
  effect is modelled as the library computes it: \<^verbatim>\<open>rotation_matrix(angle, direction)\<close>
  scales the direction to unit length and builds the homogeneous 4x4 matrix of the rotation by
  Rodrigues' formula, and \<^verbatim>\<open>apply_transform\<close> multiplies the scene's transform by it from
  the left. A zero direction has no unit vector (the division 0/0 gives not-a-number in
  every entry); this outcome is \<open>None\<close>.
\<close>

type_synonym vec4 = "real \<times> real \<times> real \<times> real"

type_synonym mat4 = "vec4 \<times> vec4 \<times> vec4 \<times> vec4"

definition dot4 :: "vec4 \<Rightarrow> vec4 \<Rightarrow> real" where
  "dot4 a b = (case a of (a0, a1, a2, a3) \<Rightarrow> case b of (b0, b1, b2, b3) \<Rightarrow>
                 a0 * b0 + a1 * b1 + a2 * b2 + a3 * b3)"

definition transpose4 :: "mat4 \<Rightarrow> mat4" where
  "transpose4 M =
     (case M of ((a0, a1, a2, a3), (b0, b1, b2, b3), (c0, c1, c2, c3), (d0, d1, d2, d3)) \<Rightarrow>
        ((a0, b0, c0, d0), (a1, b1, c1, d1), (a2, b2, c2, d2), (a3, b3, c3, d3)))"

definition row_mul :: "vec4 \<Rightarrow> mat4 \<Rightarrow> vec4" where
  "row_mul r B =
     (case transpose4 B of (c0, c1, c2, c3) \<Rightarrow> (dot4 r c0, dot4 r c1, dot4 r c2, dot4 r c3))"

definition mat_mul :: "mat4 \<Rightarrow> mat4 \<Rightarrow> mat4" where
  "mat_mul A B =
     (case A of (r0, r1, r2, r3) \<Rightarrow> (row_mul r0 B, row_mul r1 B, row_mul r2 B, row_mul r3 B))"

definition eye4 :: mat4 where
  "eye4 = ((1, 0, 0, 0), (0, 1, 0, 0), (0, 0, 1, 0), (0, 0, 0, 1))"

definition norm3 :: "vec3 \<Rightarrow> real" where
  "norm3 d = (case d of (x, y, z) \<Rightarrow> sqrt (x * x + y * y + z * z))"

definition unit_vector :: "vec3 \<Rightarrow> vec3 option" where
  "unit_vector d =
     (case d of (x, y, z) \<Rightarrow>
        if norm3 d = 0 then None else Some (x / norm3 d, y / norm3 d, z / norm3 d))"

definition rodrigues :: "real \<Rightarrow> vec3 \<Rightarrow> mat4" where
  "rodrigues angle u =
     (case u of (x, y, z) \<Rightarrow>
        let sina = sin angle; cosa = cos angle in
        ((cosa + x * x * (1 - cosa), x * y * (1 - cosa) - z * sina, x * z * (1 - cosa) + y * sina, 0),
         (y * x * (1 - cosa) + z * sina, cosa + y * y * (1 - cosa), y * z * (1 - cosa) - x * sina, 0),
         (z * x * (1 - cosa) - y * sina, z * y * (1 - cosa) + x * sina, cosa + z * z * (1 - cosa), 0),
         (0, 0, 0, 1)))"

fun rotation_matrix :: "transform \<Rightarrow> mat4 option" where
  "rotation_matrix (Rotation angle direction) =
     (case unit_vector direction of None \<Rightarrow> None | Some u \<Rightarrow> Some (rodrigues angle u))"

text \<open>
  The transform of a scene whose transform was \<open>B\<close> before the first logged rotation;
  \<open>None\<close> once a matrix without finite entries has been multiplied in.
\<close>

fun scene_matrix :: "mat4 \<Rightarrow> scene \<Rightarrow> mat4 option" where
  "scene_matrix B [] = Some B"
| "scene_matrix B (T # s) =
     (case (rotation_matrix T, scene_matrix B s) of
        (Some M, Some S) \<Rightarrow> Some (mat_mul M S)
      | _ \<Rightarrow> None)"

section \<open>The gesture classifier (hands_tracking.py)\<close>

text \<open>
  The thresholds are read from the module \<^verbatim>\<open>config\<close> at every call, so they are a
  parameter of the classifier; \<open>config\<close> below holds the values of config.py.
\<close>

record gesture_config =
  SWIPE_THRESHOLD :: real
  STOP_THRESHOLD :: real
  GESTURE_COOLDOWN :: real
  VISIBILITY_RESET_TIME :: real

definition config :: gesture_config where
  "config = \<lparr>SWIPE_THRESHOLD = 0.15, STOP_THRESHOLD = 0.6,
              GESTURE_COOLDOWN = 0.5, VISIBILITY_RESET_TIME = 1.5\<rparr>"

text \<open>
  One detected hand: \<^verbatim>\<open>hand_landmarks.landmark[i]\<close> is the point \<open>(x, y)\<close> of landmark
  \<open>i\<close>. The detector delivers all 21 landmarks of a hand, so indexing never fails.
\<close>

type_synonym landmarks = "nat \<Rightarrow> real \<times> real"

datatype gesture = Swipe real | Stop

record HandTracker =
  prev_x :: "real option"
  hand_visible :: bool
  last_seen_time :: real
  last_gesture_time :: real

text \<open>\<^verbatim>\<open>__init__\<close>; the argument is the clock reading \<^verbatim>\<open>time.time()\<close> at construction.\<close>

definition HandTracker_init :: "real \<Rightarrow> HandTracker" where
  "HandTracker_init now =
     \<lparr>prev_x = None, hand_visible = False, last_seen_time = now, last_gesture_time = 0\<rparr>"

text \<open>Python's \<^verbatim>\<open>round(x, 2)\<close>: to the nearest hundredth, ties to the even one.\<close>

definition round_half_even :: "real \<Rightarrow> int" where
  "round_half_even r =
     (let f = \<lfloor>r\<rfloor>; d = r - of_int f
      in if d < 1 / 2 then f else if d > 1 / 2 then f + 1 else if even f then f else f + 1)"

definition round2 :: "real \<Rightarrow> real" where
  "round2 r = of_int (round_half_even (r * 100)) / 100"

definition mean :: "real list \<Rightarrow> real" where
  "mean xs = sum_list xs / of_nat (length xs)"

text \<open>
  The two detectors return the tracker and the callbacks they made, in order:
  \<open>Swipe m\<close> for \<^verbatim>\<open>swipe_callback(m)\<close>, \<open>Stop\<close> for \<^verbatim>\<open>stop_callback()\<close>. The drawing on the
  frame is left out.
\<close>

definition handle_swipe ::
  "gesture_config \<Rightarrow> HandTracker \<Rightarrow> landmarks \<Rightarrow> real \<Rightarrow> HandTracker \<times> gesture list" where
  "handle_swipe cfg tr hand_landmarks current_time =
     (let x = fst (hand_landmarks 0);
          (tr1, calls) =
            (case prev_x tr of
               None \<Rightarrow> (tr, [])
             | Some px \<Rightarrow>
                 let movement = x - px in
                 if \<bar>movement\<bar> > SWIPE_THRESHOLD cfg
                    \<and> current_time - last_gesture_time tr > GESTURE_COOLDOWN cfg
                 then
                   let swipe_magnitude = round2 (\<bar>movement\<bar> * 10)
                   in (tr\<lparr>last_gesture_time := current_time\<rparr>,
                       [Swipe ((if movement > 0 then 1 else - 1) * swipe_magnitude)])
                 else (tr, []))
      in (tr1\<lparr>prev_x := Some x\<rparr>, calls))"

definition handle_stop_gesture ::
  "gesture_config \<Rightarrow> HandTracker \<Rightarrow> landmarks \<Rightarrow> real \<Rightarrow> HandTracker \<times> gesture list" where
  "handle_stop_gesture cfg tr hand_landmarks current_time =
     (let finger_tips = map (\<lambda>i. snd (hand_landmarks i)) [4, 8, 12, 16, 20];
          palm_center = snd (hand_landmarks 0);
          openness = \<bar>mean (map (\<lambda>tip. tip - palm_center) finger_tips)\<bar>
      in if openness > STOP_THRESHOLD cfg
            \<and> current_time - last_gesture_time tr > GESTURE_COOLDOWN cfg
         then (tr\<lparr>last_gesture_time := current_time\<rparr>, [Stop])
         else (tr, []))"

text \<open>The loop of \<^verbatim>\<open>track\<close> over the hands of one frame: all hands share the one tracker.\<close>

fun track_loop ::
  "gesture_config \<Rightarrow> HandTracker \<Rightarrow> landmarks list \<Rightarrow> real \<Rightarrow> HandTracker \<times> gesture list" where
  "track_loop cfg tr [] current_time = (tr, [])"
| "track_loop cfg tr (hand_landmarks # rest) current_time =
     (let (tr1, calls1) = handle_swipe cfg tr hand_landmarks current_time;
          (tr2, calls2) = handle_stop_gesture cfg tr1 hand_landmarks current_time;
          (tr3, calls3) = track_loop cfg tr2 rest current_time
      in (tr3, calls1 @ calls2 @ calls3))"

text \<open>
  A frame as the classifier sees it: the clock reading taken in \<^verbatim>\<open>track\<close> and the
  detector's \<^verbatim>\<open>multi_hand_landmarks\<close> (the empty list when no hand is detected).
\<close>

type_synonym frame = "real \<times> landmarks list"

definition HandTracker_track ::
  "gesture_config \<Rightarrow> HandTracker \<Rightarrow> frame \<Rightarrow> HandTracker \<times> gesture list" where
  "HandTracker_track cfg tr fr =
     (case fr of (current_time, multi_hand_landmarks) \<Rightarrow>
        if multi_hand_landmarks \<noteq> [] then
          track_loop cfg (tr\<lparr>hand_visible := True, last_seen_time := current_time\<rparr>)
            multi_hand_landmarks current_time
        else if hand_visible tr \<and> current_time - last_seen_time tr > VISIBILITY_RESET_TIME cfg
        then (tr\<lparr>prev_x := None, hand_visible := False\<rparr>, [])
        else (tr, []))"

text \<open>The capture loop: frame after frame; every callback is kept with its frame's time.\<close>

fun track_frames ::
  "gesture_config \<Rightarrow> HandTracker \<Rightarrow> frame list \<Rightarrow> HandTracker \<times> (real \<times> gesture) list" where
  "track_frames cfg tr [] = (tr, [])"
| "track_frames cfg tr (fr # frs) =
     (let (tr1, calls) = HandTracker_track cfg tr fr;
          (tr2, later) = track_frames cfg tr1 frs
      in (tr2, map (\<lambda>g. (fst fr, g)) calls @ later))"

fun is_swipe :: "gesture \<Rightarrow> bool" where
  "is_swipe (Swipe m) = True"
| "is_swipe Stop = False"

text \<open>
  \<open>spaced c l ts\<close>: each time of \<open>ts\<close> is more than \<open>c\<close> after the one before it, the first
  more than \<open>c\<close> after \<open>l\<close>.
\<close>

fun spaced :: "real \<Rightarrow> real \<Rightarrow> real list \<Rightarrow> bool" where
  "spaced c l [] = True"
| "spaced c l (t # ts) = (t - l > c \<and> spaced c t ts)"

text \<open>
  A hand for the examples: the wrist at \<open>(x, wrist_y)\<close>, every other landmark at
  \<open>(x, tip_y)\<close>.
\<close>

definition hand_at :: "real \<Rightarrow> real \<Rightarrow> real \<Rightarrow> landmarks" where
  "hand_at x wrist_y tip_y = (\<lambda>i. if i = 0 then (x, wrist_y) else (x, tip_y))"

section \<open>Properties of the viewer\<close>

lemma default_viewer_init: "HoloViewer_init [] 24 0 0.125 = Inr default_viewer"
  by (simp add: HoloViewer_init_def default_viewer_def)

lemma auto_rotate_Inr:
  assumes "fps v \<noteq> 0"
  shows "auto_rotate v =
     Inr (v\<lparr>current_speed :=
              (if current_speed v > target_speed v then
                 (if current_speed v - target_speed v > max (target_speed v) (deceleration v)
                  then current_speed v * (1 - 1 / fps v) + target_speed v * (1 / fps v)
                  else max (current_speed v - deceleration v * (1 / fps v)) (target_speed v))
               else current_speed v),
            scene := apply_transform
              (Rotation (of_int (rotation_direction v) *
                 (if current_speed v > target_speed v then
                    (if current_speed v - target_speed v > max (target_speed v) (deceleration v)
                     then current_speed v * (1 - 1 / fps v) + target_speed v * (1 / fps v)
                     else max (current_speed v - deceleration v * (1 / fps v)) (target_speed v))
                  else current_speed v) * 2 * pi * (1 / fps v)) (0, 1, 0)) (scene v)\<rparr>)"
  using assms by (simp add: auto_rotate_def Let_def)

text \<open>
  Claim C1. A tick with \<open>dt = 1 / fps\<close> in \<open>(0, 1]\<close> returns normally. When the speed is above
  the target and the excess exceeds \<open>max target_speed deceleration\<close>, the new speed is
  \<open>current_speed * (1 - dt) + target_speed * dt\<close>; when the speed is above the target and the
  excess does not exceed that bound, the new speed is
  \<open>max (current_speed - deceleration * dt) target_speed\<close>. In every case the one rotation applied
  to the scene is about the axis \<open>(0, 1, 0)\<close> by \<open>rotation_direction * current_speed * 2 * pi * dt\<close>
  with the speed after the update.
\<close>

theorem auto_rotate_tick:
  assumes "0 < 1 / fps v" and "1 / fps v \<le> 1"
  shows "\<exists>v'. auto_rotate v = Inr v' \<and>
      (current_speed v > target_speed v \<and>
       current_speed v - target_speed v > max (target_speed v) (deceleration v) \<longrightarrow>
         current_speed v' = current_speed v * (1 - 1 / fps v) + target_speed v * (1 / fps v)) \<and>
      (current_speed v > target_speed v \<and>
       \<not> current_speed v - target_speed v > max (target_speed v) (deceleration v) \<longrightarrow>
         current_speed v' = max (current_speed v - deceleration v * (1 / fps v)) (target_speed v)) \<and>
      scene v' = apply_transform
         (Rotation (of_int (rotation_direction v) * current_speed v' * 2 * pi * (1 / fps v)) (0, 1, 0))
         (scene v)"
proof -
  from assms(1) have nz: "fps v \<noteq> 0" by auto
  show ?thesis
    unfolding auto_rotate_Inr [OF nz] by simp
qed

text \<open>
  The scenario of the specification: speed 1, target 0, deceleration 0.25 at 24 ticks per
  second takes the exponential branch to 23/24.
\<close>

theorem auto_rotate_tick_witness:
  "(0::real) < 1 / 24 \<and> (1::real) / 24 \<le> 1 \<and>
   (\<exists>v'. auto_rotate (default_viewer\<lparr>current_speed := 1, deceleration := 0.25\<rparr>) = Inr v' \<and>
      current_speed v' = 23 / 24 \<and>
      scene v' = [Rotation (23 / 24 * 2 * pi * (1 / 24)) (0, 1, 0)])"
proof -
  obtain v' where
    "auto_rotate (default_viewer\<lparr>current_speed := 1, deceleration := 0.25\<rparr>) = Inr v'"
    "current_speed v' = 23 / 24"
    "scene v' = [Rotation (current_speed v' * 2 * pi * (1 / 24)) (0, 1, 0)]"
    using auto_rotate_tick [of "default_viewer\<lparr>current_speed := 1, deceleration := 0.25\<rparr>"]
    by (auto simp: default_viewer_def apply_transform_def)
  then show ?thesis by simp
qed

text \<open>
  Claim C2. Receiving a swipe of magnitude \<open>m\<close> forms the signed speed
  \<open>m / 5 + current_speed * rotation_direction\<close>, sets the direction to \<open>+1\<close> when that is
  non-negative and to \<open>-1\<close> otherwise, sets the speed to its absolute value, the target to
  \<open>base_speed\<close> and the deceleration to \<open>base_deceleration\<close>. It holds for every viewer state,
  in particular for those with a non-negative speed and a direction of \<open>+1\<close> or \<open>-1\<close>.
\<close>

theorem swipe_receive:
  "current_speed (swipe v m) = \<bar>m / 5 + current_speed v * of_int (rotation_direction v)\<bar> \<and>
   rotation_direction (swipe v m) =
     (if m / 5 + current_speed v * of_int (rotation_direction v) \<ge> 0 then 1 else - 1) \<and>
   target_speed (swipe v m) = base_speed v \<and>
   deceleration (swipe v m) = base_deceleration v"
  by (simp add: swipe_def Let_def)

text \<open>
  The scenario of the specification: magnitude 2 at speed 0 and direction \<open>+1\<close> gives speed 0.4,
  direction \<open>+1\<close> and the target \<open>base_speed\<close>.
\<close>

theorem swipe_receive_witness:
  "current_speed (swipe default_viewer 2) = 0.4 \<and>
   rotation_direction (swipe default_viewer 2) = 1 \<and>
   target_speed (swipe default_viewer 2) = base_speed default_viewer \<and>
   deceleration (swipe default_viewer 2) = 0.0125"
  using swipe_receive [of default_viewer 2]
  by (simp add: default_viewer_def)

lemma auto_rotate_keeps:
  assumes "auto_rotate v = Inr v'"
  shows "fps v' = fps v" "target_speed v' = target_speed v" "deceleration v' = deceleration v"
  using assms by (auto simp: auto_rotate_def Let_def split: if_splits)

lemma auto_rotate_after_stop:
  assumes "0 < 1 / fps v" "1 / fps v \<le> 1" "target_speed v = 0" "0 \<le> current_speed v"
  shows "\<exists>v'. auto_rotate v = Inr v' \<and>
           current_speed v' =
             (if current_speed v > 0 then
                (if current_speed v > max 0 (deceleration v)
                 then current_speed v * (1 - 1 / fps v)
                 else max (current_speed v - deceleration v * (1 / fps v)) 0)
              else current_speed v) \<and>
           0 \<le> current_speed v' \<and> current_speed v' \<le> current_speed v \<and>
           (0 < current_speed v \<longrightarrow> current_speed v' < current_speed v) \<and>
           (0 < deceleration v \<longrightarrow>
              current_speed v' \<le> max (current_speed v - deceleration v * (1 / fps v)) 0)"
proof -
  from assms(1) have nz: "fps v \<noteq> 0" by auto
  define dt where "dt = 1 / fps v"
  define c where "c = current_speed v"
  define D where "D = deceleration v"
  have dt: "0 < dt" "dt \<le> 1" using assms by (simp_all add: dt_def)
  have c0: "0 \<le> c" using assms(4) by (simp add: c_def)
  have e1: "0 \<le> c * (1 - dt)" using c0 dt by simp
  have e2: "c * (1 - dt) \<le> c" using c0 dt by (simp add: mult_left_le)
  have e3: "0 < c \<Longrightarrow> c * (1 - dt) < c" using dt by simp
  have e4: "D < c \<Longrightarrow> c * (1 - dt) \<le> c - D * dt"
  proof -
    assume "D < c"
    then have "D * dt \<le> c * dt" using dt by simp
    then show ?thesis by (simp add: algebra_simps)
  qed
  have l1: "0 < c \<Longrightarrow> \<not> max 0 D < c \<Longrightarrow> 0 < D * dt"
    using dt by (simp add: max_def split: if_splits)
  have "auto_rotate v = Inr (v\<lparr>current_speed :=
              (if c > 0 then (if c > max 0 D then c * (1 - dt) else max (c - D * dt) 0) else c),
            scene := apply_transform
              (Rotation (of_int (rotation_direction v) *
                 (if c > 0 then (if c > max 0 D then c * (1 - dt) else max (c - D * dt) 0) else c)
                  * 2 * pi * dt) (0, 1, 0)) (scene v)\<rparr>)"
    unfolding auto_rotate_Inr [OF nz] using assms(3) by (simp add: c_def D_def dt_def)
  moreover have "0 \<le> (if c > 0 then (if c > max 0 D then c * (1 - dt) else max (c - D * dt) 0) else c)"
    using e1 c0 by simp
  moreover have "(if c > 0 then (if c > max 0 D then c * (1 - dt) else max (c - D * dt) 0) else c) \<le> c"
    using e2 l1 by (auto simp: not_less)
  moreover have "0 < c \<longrightarrow>
      (if c > 0 then (if c > max 0 D then c * (1 - dt) else max (c - D * dt) 0) else c) < c"
    using e3 l1 by auto
  moreover have "0 < D \<longrightarrow>
      (if c > 0 then (if c > max 0 D then c * (1 - dt) else max (c - D * dt) 0) else c)
        \<le> max (c - D * dt) 0"
    using e4 c0 by (auto simp: max_def)
  ultimately show ?thesis
    unfolding c_def D_def dt_def by simp
qed

lemma ticks_after_stop:
  assumes "0 < 1 / fps v" "1 / fps v \<le> 1" "target_speed v = 0" "0 \<le> current_speed v"
  shows "\<exists>vn. ticks n v = Inr vn \<and> fps vn = fps v \<and> target_speed vn = 0 \<and>
            deceleration vn = deceleration v \<and> 0 \<le> current_speed vn \<and>
            (0 < deceleration v \<longrightarrow>
               current_speed vn \<le> max (current_speed v - of_nat n * (deceleration v * (1 / fps v))) 0)"
  using assms
proof (induction n arbitrary: v)
  case 0
  then show ?case by simp
next
  case (Suc n)
  from auto_rotate_after_stop [OF Suc.prems] obtain v' where
    v': "auto_rotate v = Inr v'" "0 \<le> current_speed v'"
        "0 < deceleration v \<longrightarrow>
           current_speed v' \<le> max (current_speed v - deceleration v * (1 / fps v)) 0"
    by blast
  note k = auto_rotate_keeps [OF v'(1)]
  have p: "0 < 1 / fps v'" "1 / fps v' \<le> 1" "target_speed v' = 0" "0 \<le> current_speed v'"
    using Suc.prems v' k by simp_all
  from Suc.IH [OF p] obtain vn where
    vn: "ticks n v' = Inr vn" "fps vn = fps v'" "target_speed vn = 0"
        "deceleration vn = deceleration v'" "0 \<le> current_speed vn"
        "0 < deceleration v' \<longrightarrow>
           current_speed vn \<le> max (current_speed v' - of_nat n * (deceleration v' * (1 / fps v'))) 0"
    by blast
  have "0 < deceleration v \<longrightarrow>
      current_speed vn \<le> max (current_speed v - of_nat (Suc n) * (deceleration v * (1 / fps v))) 0"
  proof
    assume D: "0 < deceleration v"
    define s where "s = deceleration v * (1 / fps v)"
    have s0: "0 \<le> of_nat n * s" using D Suc.prems(1) by (simp add: s_def)
    from v'(3) D have a: "current_speed v' \<le> max (current_speed v - s) 0" by (simp add: s_def)
    from vn(6) D k have b: "current_speed vn \<le> max (current_speed v' - of_nat n * s) 0"
      by (simp add: s_def)
    from a b s0 have "current_speed vn \<le> max (current_speed v - s - of_nat n * s) 0"
      by (auto simp: max_def split: if_splits)
    then have "current_speed vn \<le> max (current_speed v - of_nat (Suc n) * s) 0"
      by (simp add: algebra_simps)
    then show "current_speed vn \<le> max (current_speed v - of_nat (Suc n) * (deceleration v * (1 / fps v))) 0"
      unfolding s_def .
  qed
  with v'(1) vn k show ?case by simp
qed

text \<open>
  Claim C7. \<^verbatim>\<open>stop_rotation\<close> sets the target to 0 and the deceleration to
  \<open>stop_deceleration\<close>. After it, on a viewer with a non-negative speed and with ticks only
  (\<open>dt = 1 / fps\<close> in \<open>(0, 1]\<close>), every number \<open>n\<close> of ticks completes and the tick after them
  completes too; that tick multiplies a speed above \<open>stop_deceleration\<close> by \<open>1 - dt\<close> and
  lowers any other positive speed by \<open>stop_deceleration * dt\<close>, not below 0. The new speed is
  at least 0, at most the speed before, and strictly below it while that is positive. With
  a positive \<open>stop_deceleration\<close> the speed is exactly 0 from some tick on. Moreover a tick
  of any viewer whose speed is not above its target leaves the speed unchanged.
\<close>

theorem stop_then_ticks:
  assumes "0 \<le> current_speed v" and "0 < 1 / fps v" and "1 / fps v \<le> 1"
  shows "target_speed (stop_rotation v) = 0 \<and>
         deceleration (stop_rotation v) = stop_deceleration v \<and>
         (\<exists>vn vn'. ticks n (stop_rotation v) = Inr vn \<and> auto_rotate vn = Inr vn' \<and>
            current_speed vn' =
              (if current_speed vn > 0 then
                 (if current_speed vn > max 0 (stop_deceleration v)
                  then current_speed vn * (1 - 1 / fps v)
                  else max (current_speed vn - stop_deceleration v * (1 / fps v)) 0)
               else current_speed vn) \<and>
            0 \<le> current_speed vn' \<and> current_speed vn' \<le> current_speed vn \<and>
            (0 < current_speed vn \<longrightarrow> current_speed vn' < current_speed vn)) \<and>
         (0 < stop_deceleration v \<longrightarrow>
            (\<exists>N. \<forall>m\<ge>N. \<exists>vm. ticks m (stop_rotation v) = Inr vm \<and> current_speed vm = 0)) \<and>
         (\<forall>w w'. current_speed w \<le> target_speed w \<and> auto_rotate w = Inr w' \<longrightarrow>
            current_speed w' = current_speed w)"
proof (intro conjI)
  let ?s = "stop_rotation v"
  show "target_speed ?s = 0" and "deceleration ?s = stop_deceleration v"
    by (simp_all add: stop_rotation_def)
  have s: "0 < 1 / fps ?s" "1 / fps ?s \<le> 1" "target_speed ?s = 0" "0 \<le> current_speed ?s"
    using assms by (simp_all add: stop_rotation_def)
  have f: "fps ?s = fps v" "deceleration ?s = stop_deceleration v" "current_speed ?s = current_speed v"
    by (simp_all add: stop_rotation_def)
  from ticks_after_stop [OF s, of n] obtain vn where
    vn: "ticks n ?s = Inr vn" "fps vn = fps ?s" "target_speed vn = 0"
        "deceleration vn = deceleration ?s" "0 \<le> current_speed vn"
    by blast
  have p: "0 < 1 / fps vn" "1 / fps vn \<le> 1" using s vn by simp_all
  from auto_rotate_after_stop [OF p vn(3) vn(5)] vn f
  show "\<exists>vn vn'. ticks n ?s = Inr vn \<and> auto_rotate vn = Inr vn' \<and>
            current_speed vn' =
              (if current_speed vn > 0 then
                 (if current_speed vn > max 0 (stop_deceleration v)
                  then current_speed vn * (1 - 1 / fps v)
                  else max (current_speed vn - stop_deceleration v * (1 / fps v)) 0)
               else current_speed vn) \<and>
            0 \<le> current_speed vn' \<and> current_speed vn' \<le> current_speed vn \<and>
            (0 < current_speed vn \<longrightarrow> current_speed vn' < current_speed vn)"
    by auto
  show "0 < stop_deceleration v \<longrightarrow>
            (\<exists>N. \<forall>m\<ge>N. \<exists>vm. ticks m ?s = Inr vm \<and> current_speed vm = 0)"
  proof
    assume D: "0 < stop_deceleration v"
    define step where "step = stop_deceleration v * (1 / fps v)"
    have st: "0 < step" using D assms(2) by (simp add: step_def)
    define N where "N = nat \<lceil>current_speed v / step\<rceil>"
    have "\<exists>vm. ticks m ?s = Inr vm \<and> current_speed vm = 0" if "m \<ge> N" for m
    proof -
      from ticks_after_stop [OF s, of m] D f obtain vm where
        vm: "ticks m ?s = Inr vm" "0 \<le> current_speed vm"
            "current_speed vm \<le> max (current_speed v - of_nat m * step) 0"
        by (auto simp: step_def)
      have "current_speed v / step \<le> of_nat N"
        unfolding N_def by (metis of_nat_nat le_of_int_ceiling of_int_of_nat_eq ceiling_mono
            ceiling_zero le_cases nat_0_iff nat_le_0 of_nat_0 order_trans zero_le_ceiling of_int_0_le_iff real_nat_ceiling_ge)
      also have "\<dots> \<le> of_nat m" using that by simp
      finally have "current_speed v \<le> of_nat m * step" using st by (simp add: pos_divide_le_eq)
      with vm show ?thesis by (auto simp: max_def split: if_splits)
    qed
    then show "\<exists>N. \<forall>m\<ge>N. \<exists>vm. ticks m ?s = Inr vm \<and> current_speed vm = 0" by blast
  qed
  show "\<forall>w w'. current_speed w \<le> target_speed w \<and> auto_rotate w = Inr w' \<longrightarrow>
            current_speed w' = current_speed w"
    by (auto simp: auto_rotate_def Let_def split: if_splits)
qed

text \<open>From speed 1 at 24 ticks per second, with the stop deceleration 0.25 of the viewer.\<close>

theorem stop_then_ticks_witness:
  "(0::real) \<le> 1 \<and> (0::real) < 1 / 24 \<and> (1::real) / 24 \<le> 1 \<and>
   (\<exists>vn vn'. ticks 2 (stop_rotation (default_viewer\<lparr>current_speed := 1\<rparr>)) = Inr vn \<and>
      auto_rotate vn = Inr vn' \<and> 0 \<le> current_speed vn' \<and> current_speed vn' \<le> current_speed vn) \<and>
   deceleration (stop_rotation (default_viewer\<lparr>current_speed := 1\<rparr>)) = 0.25"
proof -
  have h: "0 \<le> current_speed (default_viewer\<lparr>current_speed := 1\<rparr>)"
    "0 < 1 / fps (default_viewer\<lparr>current_speed := 1\<rparr>)"
    "1 / fps (default_viewer\<lparr>current_speed := 1\<rparr>) \<le> 1"
    by (simp_all add: default_viewer_def)
  from stop_then_ticks [OF h, of 2]
  have "\<exists>vn vn'. ticks 2 (stop_rotation (default_viewer\<lparr>current_speed := 1\<rparr>)) = Inr vn \<and>
      auto_rotate vn = Inr vn' \<and> 0 \<le> current_speed vn' \<and> current_speed vn' \<le> current_speed vn"
    and "deceleration (stop_rotation (default_viewer\<lparr>current_speed := 1\<rparr>)) =
         stop_deceleration (default_viewer\<lparr>current_speed := 1\<rparr>)"
    by blast+
  then show ?thesis by (simp add: default_viewer_def)
qed

subsection \<open>The camera pose\<close>

lemma mat_mul_assoc: "mat_mul (mat_mul A B) C = mat_mul A (mat_mul B C)"
  by (simp add: mat_mul_def row_mul_def transpose4_def dot4_def case_prod_beta prod_eq_iff
      algebra_simps)

lemma mat_mul_eye4: "mat_mul eye4 A = A"
  by (simp add: mat_mul_def row_mul_def transpose4_def dot4_def eye4_def case_prod_beta
      prod_eq_iff)

lemma rodrigues_inverse:
  assumes "x * x + y * y + z * z = 1"
  shows "mat_mul (rodrigues a (x, y, z)) (rodrigues (- a) (x, y, z)) = eye4"
proof -
  have sc: "sin a * sin a + cos a * cos a = 1"
    using sin_cos_squared_add [of a] by (simp add: power2_eq_square)
  show ?thesis
    using assms sc
    apply (simp add: mat_mul_def row_mul_def transpose4_def dot4_def eye4_def rodrigues_def Let_def)
    apply (intro conjI)
            apply algebra+
    done
qed

lemma norm3_zero_iff: "norm3 d = 0 \<longleftrightarrow> d = (0, 0, 0)"
proof (cases d)
  case (fields x y z)
  have "x * x + y * y + z * z = 0 \<longleftrightarrow> x = 0 \<and> y = 0 \<and> z = 0"
    using sum_squares_eq_zero_iff [of x y] sum_squares_eq_zero_iff [of "sqrt (x * x + y * y)" z]
    by (smt (verit) mult_eq_0_iff zero_le_square)
  then show ?thesis using fields by (simp add: norm3_def)
qed

lemma unit_vector_unit:
  assumes "unit_vector d = Some (x, y, z)"
  shows "x * x + y * y + z * z = 1"
proof (cases d)
  case (fields a b c)
  define n where "n = norm3 d"
  from assms fields have n0: "n \<noteq> 0" and u: "x = a / n" "y = b / n" "z = c / n"
    by (auto simp: unit_vector_def n_def split: if_splits)
  have "0 \<le> a * a + b * b + c * c" by (simp add: add_nonneg_nonneg)
  then have nn: "n * n = a * a + b * b + c * c"
    using fields by (simp add: n_def norm3_def)
  have "x * x + y * y + z * z = (a * a + b * b + c * c) / (n * n)"
    by (simp add: u add_divide_distrib)
  also have "\<dots> = 1" using n0 by (simp add: nn [symmetric])
  finally show ?thesis .
qed

lemma rotation_undo:
  assumes "d \<noteq> (0, 0, 0)"
  shows "\<exists>M N. rotation_matrix (Rotation a d) = Some M \<and> rotation_matrix (Rotation (- a) d) = Some N
           \<and> mat_mul M N = eye4"
proof -
  from assms have "norm3 d \<noteq> 0" by (simp add: norm3_zero_iff)
  then obtain x y z where u: "unit_vector d = Some (x, y, z)"
    by (cases d) (simp add: unit_vector_def)
  from unit_vector_unit [OF u] rodrigues_inverse [of x y z a] u
  show ?thesis by simp
qed

lemma set_camera_angle_effect:
  "scene (set_camera_angle v a d) =
     Rotation a d # Rotation (- camera_current_angle v) (camera_current_direction v) # scene v"
  "camera_current_angle (set_camera_angle v a d) = a"
  "camera_current_direction (set_camera_angle v a d) = d"
  by (simp_all add: set_camera_angle_def Let_def apply_transform_def)




text \<open>
  Claim C9. For every angle \<open>a\<close> and every direction \<open>d\<close> other than the zero vector, a second
  call \<^verbatim>\<open>set_camera_angle(a, d)\<close> right after the first leaves the scene's transform as it was
  after the first call, whatever the transform \<open>B\<close> the scene started from: the undo of the
  stored pose and the new rotation multiply to the identity.
\<close>

theorem set_camera_angle_twice:
  assumes "d \<noteq> (0, 0, 0)"
  shows "scene_matrix B (scene (set_camera_angle (set_camera_angle v a d) a d)) =
         scene_matrix B (scene (set_camera_angle v a d))"
proof -
  obtain M N where MN: "rotation_matrix (Rotation a d) = Some M"
    "rotation_matrix (Rotation (- a) d) = Some N" "mat_mul M N = eye4"
    using rotation_undo [OF assms] by blast
  let ?s = "scene (set_camera_angle v a d)"
  have twice: "scene (set_camera_angle (set_camera_angle v a d) a d) =
      Rotation a d # Rotation (- a) d # ?s"
    by (simp add: set_camera_angle_effect)
  show ?thesis
  proof (cases "scene_matrix B ?s")
    case None
    then show ?thesis unfolding twice using MN by simp
  next
    case (Some S)
    have "mat_mul M (mat_mul N S) = S"
      using MN(3) by (simp add: mat_mul_assoc [symmetric] mat_mul_eye4)
    then show ?thesis unfolding twice using MN Some by simp
  qed
qed

text \<open>
  A half turn about the third axis, set twice on the default viewer: the scene's transform is
  the half turn, reached once.
\<close>

theorem set_camera_angle_twice_witness:
  "(0, 0, 1) \<noteq> (0, 0, 0 :: real) \<and>
   scene_matrix eye4 (scene (set_camera_angle (set_camera_angle default_viewer pi (0, 0, 1)) pi (0, 0, 1)))
     = Some ((- 1, 0, 0, 0), (0, - 1, 0, 0), (0, 0, 1, 0), (0, 0, 0, 1))"
proof -
  have "scene_matrix eye4 (scene (set_camera_angle default_viewer pi (0, 0, 1)))
     = Some ((- 1, 0, 0, 0), (0, - 1, 0, 0), (0, 0, 1, 0), (0, 0, 0, 1))"
    by (simp add: set_camera_angle_def Let_def apply_transform_def default_viewer_def
        unit_vector_def norm3_def rodrigues_def mat_mul_def row_mul_def transpose4_def dot4_def
        eye4_def)
  then show ?thesis
    using set_camera_angle_twice [of "(0, 0, 1)" eye4 default_viewer pi] by simp
qed

section \<open>Properties of the gesture classifier\<close>

lemma handle_swipe_cases:
  assumes "handle_swipe cfg tr h t = (tr', calls)"
  shows "(calls = [] \<and> last_gesture_time tr' = last_gesture_time tr) \<or>
         (\<exists>m. calls = [Swipe m] \<and> t - last_gesture_time tr > GESTURE_COOLDOWN cfg \<and>
               prev_x tr \<noteq> None \<and> last_gesture_time tr' = t)"
  using assms
  by (auto simp: handle_swipe_def Let_def split: option.splits if_splits)

lemma handle_stop_gesture_cases:
  assumes "handle_stop_gesture cfg tr h t = (tr', calls)"
  shows "(calls = [] \<and> tr' = tr) \<or>
         (calls = [Stop] \<and> t - last_gesture_time tr > GESTURE_COOLDOWN cfg \<and>
          last_gesture_time tr' = t)"
  using assms
  by (auto simp: handle_stop_gesture_def Let_def split: if_splits)

lemma track_loop_blocked:
  assumes "t - last_gesture_time tr \<le> GESTURE_COOLDOWN cfg"
      and "track_loop cfg tr hs t = (tr', calls)"
  shows "calls = [] \<and> last_gesture_time tr' = last_gesture_time tr"
  using assms
proof (induction hs arbitrary: tr tr' calls)
  case Nil
  then show ?case by simp
next
  case (Cons h hs)
  obtain tr1 c1 where s1: "handle_swipe cfg tr h t = (tr1, c1)" by force
  obtain tr2 c2 where s2: "handle_stop_gesture cfg tr1 h t = (tr2, c2)" by force
  obtain tr3 c3 where s3: "track_loop cfg tr2 hs t = (tr3, c3)" by force
  from handle_swipe_cases [OF s1] Cons.prems(1)
  have a: "c1 = []" "last_gesture_time tr1 = last_gesture_time tr" by auto
  from handle_stop_gesture_cases [OF s2] a Cons.prems(1)
  have b: "c2 = []" "last_gesture_time tr2 = last_gesture_time tr" by auto
  from Cons.IH [OF _ s3] b Cons.prems(1)
  have c: "c3 = []" "last_gesture_time tr3 = last_gesture_time tr" by auto
  from Cons.prems(2) s1 s2 s3 have "tr' = tr3" "calls = c1 @ c2 @ c3" by auto
  with a b c show ?case by simp
qed

lemma track_loop_spaced:
  assumes "track_loop cfg tr hs t = (tr', calls)"
  shows "spaced (GESTURE_COOLDOWN cfg) (last_gesture_time tr) (map (\<lambda>g. t) calls) \<and>
         last_gesture_time tr' = (if calls = [] then last_gesture_time tr else t)"
  using assms
proof (induction hs arbitrary: tr tr' calls)
  case Nil
  then show ?case by simp
next
  case (Cons h hs)
  obtain tr1 c1 where s1: "handle_swipe cfg tr h t = (tr1, c1)" by force
  obtain tr2 c2 where s2: "handle_stop_gesture cfg tr1 h t = (tr2, c2)" by force
  obtain tr3 c3 where s3: "track_loop cfg tr2 hs t = (tr3, c3)" by force
  from Cons.prems s1 s2 s3 have eq: "tr' = tr3" "calls = c1 @ c2 @ c3" by auto
  note ih = Cons.IH [OF s3]
  from handle_swipe_cases [OF s1] handle_stop_gesture_cases [OF s2] ih
  show ?case unfolding eq by (auto split: if_splits)
qed

lemma spaced_append:
  "spaced c l (xs @ ys) \<longleftrightarrow> spaced c l xs \<and> spaced c (if xs = [] then l else last xs) ys"
  by (induction xs arbitrary: l) auto

lemma HandTracker_track_spaced:
  assumes "HandTracker_track cfg tr (t, hs) = (tr', calls)"
  shows "spaced (GESTURE_COOLDOWN cfg) (last_gesture_time tr) (map (\<lambda>g. t) calls) \<and>
         last_gesture_time tr' = (if calls = [] then last_gesture_time tr else t)"
proof (cases "hs = []")
  case True
  with assms show ?thesis by (auto simp: HandTracker_track_def split: if_splits)
next
  case False
  with assms have
    "track_loop cfg (tr\<lparr>hand_visible := True, last_seen_time := t\<rparr>) hs t = (tr', calls)"
    by (simp add: HandTracker_track_def)
  from track_loop_spaced [OF this] show ?thesis by simp
qed

lemma track_frames_spaced:
  assumes "track_frames cfg tr frs = (tr', calls)"
  shows "spaced (GESTURE_COOLDOWN cfg) (last_gesture_time tr) (map fst calls) \<and>
         last_gesture_time tr' = (if calls = [] then last_gesture_time tr else fst (last calls))"
  using assms
proof (induction frs arbitrary: tr tr' calls)
  case Nil
  then show ?case by simp
next
  case (Cons fr frs)
  obtain t hs where fr: "fr = (t, hs)" by (cases fr)
  obtain tr1 c1 where s1: "HandTracker_track cfg tr (t, hs) = (tr1, c1)" by force
  obtain tr2 c2 where s2: "track_frames cfg tr1 frs = (tr2, c2)" by force
  from Cons.prems fr s1 s2 have eq: "tr' = tr2" "calls = map (\<lambda>g. (t, g)) c1 @ c2" by auto
  note a = HandTracker_track_spaced [OF s1]
  note b = Cons.IH [OF s2]
  have m: "map fst (map (\<lambda>g. (t, g)) c1) = map (\<lambda>g. t) c1" by simp
  have l: "c1 \<noteq> [] \<Longrightarrow> last (map (\<lambda>g. t) c1) = t" by (simp add: last_map)
  show ?case
    unfolding eq using a b l
    by (auto simp: spaced_append m o_def last_map split: if_splits)
qed

lemma track_frames_times:
  assumes "track_frames cfg tr frs = (tr', calls)"
  shows "set (map fst calls) \<subseteq> set (map fst frs)"
  using assms
proof (induction frs arbitrary: tr tr' calls)
  case Nil
  then show ?case by simp
next
  case (Cons fr frs)
  obtain tr1 c1 where s1: "HandTracker_track cfg tr fr = (tr1, c1)" by force
  obtain tr2 c2 where s2: "track_frames cfg tr1 frs = (tr2, c2)" by force
  from Cons.prems s1 s2 have eq: "calls = map (\<lambda>g. (fst fr, g)) c1 @ c2" by auto
  from Cons.IH [OF s2] show ?case unfolding eq by auto
qed

lemma track_frames_sorted:
  assumes "sorted (map fst frs)" and "track_frames cfg tr frs = (tr', calls)"
  shows "sorted (map fst calls)"
  using assms
proof (induction frs arbitrary: tr tr' calls)
  case Nil
  then show ?case by simp
next
  case (Cons fr frs)
  obtain tr1 c1 where s1: "HandTracker_track cfg tr fr = (tr1, c1)" by force
  obtain tr2 c2 where s2: "track_frames cfg tr1 frs = (tr2, c2)" by force
  from Cons.prems s1 s2 have eq: "calls = map (\<lambda>g. (fst fr, g)) c1 @ c2" by auto
  from Cons.prems(1) have srt: "sorted (map fst frs)" and le: "\<forall>u \<in> set (map fst frs). fst fr \<le> u"
    by auto
  have "sorted (map fst c2)" using Cons.IH [OF srt s2] .
  moreover have "\<forall>u \<in> set (map fst c2). fst fr \<le> u"
    using track_frames_times [OF s2] le by blast
  moreover have "sorted (map (\<lambda>g. fst fr) c1)"
    by (induction c1) auto
  ultimately show ?case unfolding eq
    by (auto simp: sorted_append o_def)
qed

lemma spaced_sorted_above:
  assumes "spaced c l ts" and "sorted ts" and "u \<in> set ts"
  shows "u - l > c"
  using assms by (cases ts) auto

lemma spaced_sorted_pairwise:
  assumes "spaced c l ts" and "sorted ts" and "i < j" and "j < length ts"
  shows "ts ! j - ts ! i > c"
  using assms
proof (induction ts arbitrary: l i j)
  case Nil
  then show ?case by simp
next
  case (Cons t ts)
  show ?case
  proof (cases i)
    case 0
    with Cons.prems obtain k where k: "j = Suc k" "k < length ts" by (cases j) auto
    have "ts ! k \<in> set ts" using k by simp
    from spaced_sorted_above [OF _ _ this, of c t] Cons.prems(1,2)
    show ?thesis using 0 k by simp
  next
    case (Suc i')
    with Cons.prems obtain k where k: "j = Suc k" "k < length ts" "i' < k" by (cases j) auto
    from Cons.IH [of t i' k] Cons.prems(1,2) k
    show ?thesis using Suc by simp
  qed
qed

text \<open>
  Claim C5. Over any sequence of frames with strictly increasing times, any two callbacks
  made (swipe or stop, in any combination) are more than \<open>GESTURE_COOLDOWN\<close> apart in time.
  In particular, once a gesture has been emitted, a frame that comes within
  \<open>GESTURE_COOLDOWN\<close> of it emits nothing, so of two swipes within the cooldown only the
  first is emitted.
\<close>

theorem gestures_spaced_by_cooldown:
  assumes "sorted_wrt (<) (map fst frames)"
      and "track_frames cfg tr frames = (tr', calls)"
  shows "(\<forall>i j. i < j \<and> j < length calls \<longrightarrow>
            fst (calls ! j) - fst (calls ! i) > GESTURE_COOLDOWN cfg) \<and>
         (calls \<noteq> [] \<longrightarrow>
            (\<forall>t hands. t - fst (last calls) \<le> GESTURE_COOLDOWN cfg \<longrightarrow>
               snd (HandTracker_track cfg tr' (t, hands)) = []))"
proof (intro conjI allI impI)
  fix i j
  assume ij: "i < j \<and> j < length calls"
  have "sorted (map fst frames)"
    using assms(1) by (simp add: sorted_wrt_mono_rel [of _ "(<)" "(\<le>)"])
  then have s: "sorted (map fst calls)" using track_frames_sorted assms(2) by blast
  from track_frames_spaced [OF assms(2)]
  have sp: "spaced (GESTURE_COOLDOWN cfg) (last_gesture_time tr) (map fst calls)" by simp
  from spaced_sorted_pairwise [OF sp s, of i j] ij
  show "fst (calls ! j) - fst (calls ! i) > GESTURE_COOLDOWN cfg" by simp
next
  fix t hands
  assume ne: "calls \<noteq> []" and near: "t - fst (last calls) \<le> GESTURE_COOLDOWN cfg"
  from track_frames_spaced [OF assms(2)] ne
  have l: "last_gesture_time tr' = fst (last calls)" by simp
  obtain tr2 c2 where s: "HandTracker_track cfg tr' (t, hands) = (tr2, c2)" by force
  have "c2 = []"
  proof (cases "hands = []")
    case True
    with s show ?thesis by (auto simp: HandTracker_track_def split: if_splits)
  next
    case False
    with s have "track_loop cfg (tr'\<lparr>hand_visible := True, last_seen_time := t\<rparr>) hands t = (tr2, c2)"
      by (simp add: HandTracker_track_def)
    from track_loop_blocked [OF _ this] near l show ?thesis by simp
  qed
  with s show "snd (HandTracker_track cfg tr' (t, hands)) = []" by simp
qed

lemma round2_examples: "round2 4 = 4" "round2 8 = 8"
  by (simp_all add: round2_def round_half_even_def Let_def)

lemma run_example:
  "track_frames config (HandTracker_init 0)
      [(1, [hand_at 0.1 0.5 0.5]), (2, [hand_at 0.5 0.5 0.5]),
       (2.25, [hand_at 0.9 0.5 0.5]), (3, [hand_at 0.1 0.5 0.5])] =
   (\<lparr>prev_x = Some 0.1, hand_visible = True, last_seen_time = 3, last_gesture_time = 3\<rparr>,
    [(2, Swipe 4), (3, Swipe (- 8))])"
  by (simp add: HandTracker_track_def handle_swipe_def handle_stop_gesture_def
      HandTracker_init_def config_def hand_at_def mean_def Let_def round2_examples)

text \<open>
  Three swipes of the wrist at times 2, 2.25 and 3: the second falls within the cooldown of
  0.5 and is dropped.
\<close>

theorem gestures_spaced_by_cooldown_witness:
  "sorted_wrt (<) (map fst [(1 :: real, [hand_at 0.1 0.5 0.5]), (2, [hand_at 0.5 0.5 0.5]),
       (2.25, [hand_at 0.9 0.5 0.5]), (3, [hand_at 0.1 0.5 0.5])]) \<and>
   snd (track_frames config (HandTracker_init 0)
      [(1, [hand_at 0.1 0.5 0.5]), (2, [hand_at 0.5 0.5 0.5]),
       (2.25, [hand_at 0.9 0.5 0.5]), (3, [hand_at 0.1 0.5 0.5])]) = [(2, Swipe 4), (3, Swipe (- 8))] \<and>
   fst ([(2 :: real, Swipe 4), (3, Swipe (- 8))] ! 1) - fst ([(2 :: real, Swipe 4), (3, Swipe (- 8))] ! 0)
     > GESTURE_COOLDOWN config"
proof -
  have s: "sorted_wrt (<) (map fst [(1 :: real, [hand_at 0.1 0.5 0.5]), (2, [hand_at 0.5 0.5 0.5]),
       (2.25, [hand_at 0.9 0.5 0.5]), (3, [hand_at 0.1 0.5 0.5])])"
    by simp
  from gestures_spaced_by_cooldown [OF s run_example]
  have "fst ([(2 :: real, Swipe 4), (3, Swipe (- 8))] ! 1) - fst ([(2 :: real, Swipe 4), (3, Swipe (- 8))] ! 0)
     > GESTURE_COOLDOWN config"
    by (elim conjE allE [of _ 0] allE [of _ 1]) simp
  with s run_example show ?thesis by simp
qed

lemma track_loop_at_most_one:
  assumes "0 \<le> GESTURE_COOLDOWN cfg" and "track_loop cfg tr hs t = (tr', calls)"
  shows "length calls \<le> 1"
  using assms
proof (induction hs arbitrary: tr tr' calls)
  case Nil
  then show ?case by simp
next
  case (Cons h hs)
  obtain tr1 c1 where s1: "handle_swipe cfg tr h t = (tr1, c1)" by force
  obtain tr2 c2 where s2: "handle_stop_gesture cfg tr1 h t = (tr2, c2)" by force
  obtain tr3 c3 where s3: "track_loop cfg tr2 hs t = (tr3, c3)" by force
  from Cons.prems s1 s2 s3 have eq: "calls = c1 @ c2 @ c3" by auto
  note ih = Cons.IH [OF Cons.prems(1) s3]
  note blk = track_loop_blocked [OF _ s3]
  from handle_swipe_cases [OF s1] handle_stop_gesture_cases [OF s2] ih blk Cons.prems(1)
  show ?case unfolding eq by auto
qed

text \<open>
  Claim C10. With a positive cooldown, a frame with a detected hand in which a swipe is
  emitted emits no stop: the swipe sets the shared time of the last gesture to the time of
  the frame, and the cooldown test of the stop detector fails for the rest of the frame.
\<close>

theorem swipe_excludes_stop_in_frame:
  assumes "0 < GESTURE_COOLDOWN cfg"
      and "hands \<noteq> []"
      and "HandTracker_track cfg tr (t, hands) = (tr', calls)"
      and "Swipe m \<in> set calls"
  shows "Stop \<notin> set calls"
proof
  assume st: "Stop \<in> set calls"
  from assms(2,3) have
    "track_loop cfg (tr\<lparr>hand_visible := True, last_seen_time := t\<rparr>) hands t = (tr', calls)"
    by (simp add: HandTracker_track_def)
  from track_loop_at_most_one [OF _ this] assms(1) have "length calls \<le> 1" by simp
  then obtain g where "calls = [] \<or> calls = [g]"
    by (cases calls) auto
  with st assms(4) show False by auto
qed

text \<open>An open palm that also moved by 0.8: the swipe is emitted, the stop is not.\<close>

theorem swipe_excludes_stop_in_frame_witness:
  "0 < GESTURE_COOLDOWN config \<and> [hand_at 0.9 0.9 0.1] \<noteq> [] \<and>
   snd (HandTracker_track config ((HandTracker_init 0)\<lparr>prev_x := Some 0.1\<rparr>) (1, [hand_at 0.9 0.9 0.1]))
     = [Swipe 8] \<and>
   Stop \<notin> set [Swipe 8]"
proof -
  have r: "HandTracker_track config ((HandTracker_init 0)\<lparr>prev_x := Some 0.1\<rparr>) (1, [hand_at 0.9 0.9 0.1])
     = (\<lparr>prev_x = Some 0.9, hand_visible = True, last_seen_time = 1, last_gesture_time = 1\<rparr>, [Swipe 8])"
    by (simp add: HandTracker_track_def handle_swipe_def handle_stop_gesture_def
      HandTracker_init_def config_def hand_at_def mean_def Let_def round2_examples)
  have c: "0 < GESTURE_COOLDOWN config" by (simp add: config_def)
  from swipe_excludes_stop_in_frame [OF c _ r, of 8] r c show ?thesis by simp
qed

lemma no_hand_frames_keep_absent:
  assumes "\<forall>fr \<in> set gap. snd fr = []" and "prev_x tr = None"
      and "track_frames cfg tr gap = (tr', calls)"
  shows "prev_x tr' = None \<and> calls = []"
  using assms
proof (induction gap arbitrary: tr tr' calls)
  case Nil
  then show ?case by simp
next
  case (Cons fr gap)
  obtain t where fr: "fr = (t, [])" using Cons.prems(1) by (cases fr) auto
  obtain tr1 c1 where s1: "HandTracker_track cfg tr (t, []) = (tr1, c1)" by force
  obtain tr2 c2 where s2: "track_frames cfg tr1 gap = (tr2, c2)" by force
  from s1 Cons.prems(2) have a: "c1 = []" "prev_x tr1 = None"
    by (auto simp: HandTracker_track_def split: if_splits)
  from Cons.IH [OF _ a(2) s2] Cons.prems(1) have "prev_x tr2 = None \<and> c2 = []" by simp
  with Cons.prems(3) fr s1 s2 a show ?case by auto
qed

lemma absent_no_swipe:
  assumes "prev_x tr = None"
  shows "\<forall>g \<in> set (snd (HandTracker_track cfg tr (t, [h]))). \<not> is_swipe g"
  using assms
  by (auto simp: HandTracker_track_def handle_swipe_def handle_stop_gesture_def Let_def
      split: if_splits)

lemma first_sample_no_swipe:
  assumes "prev_x tr = None"
  shows "snd (handle_swipe cfg (tr\<lparr>hand_visible := True, last_seen_time := t\<rparr>) h t) = [] \<and>
         HandTracker_track cfg tr (t, h # hs) =
           (case handle_swipe cfg (tr\<lparr>hand_visible := True, last_seen_time := t\<rparr>) h t of
              (tr1, c1) \<Rightarrow>
                case handle_stop_gesture cfg tr1 h t of
                  (tr2, c2) \<Rightarrow>
                    case track_loop cfg tr2 hs t of (tr3, c3) \<Rightarrow> (tr3, c2 @ c3))"
  using assms
  by (simp add: HandTracker_track_def handle_swipe_def Let_def split: prod.splits)

text \<open>
  Claim C6, as amended. When a frame without a hand is processed while the hand is marked
  visible and more than \<open>VISIBILITY_RESET_TIME\<close> after the hand was last seen, the previous
  wrist position is cleared; it stays absent over any further frames without a hand, and
  none of these frames emits anything. The first hand sample processed after that emits no
  swipe, whatever the number of hands in its frame: the calls of that frame are those of the
  stop detector on the first sample and those of the later samples. The same holds for the
  first sample of a new tracker. A frame of one hand emits no swipe at all then.
\<close>

theorem reset_frame_then_no_swipe:
  assumes "hand_visible tr"
      and "t0 - last_seen_time tr > VISIBILITY_RESET_TIME cfg"
      and "\<forall>fr \<in> set gap. snd fr = []"
      and "track_frames cfg tr ((t0, []) # gap) = (tr', calls)"
  shows "prev_x tr' = None \<and> calls = [] \<and>
         (\<forall>t h hs.
            snd (handle_swipe cfg (tr'\<lparr>hand_visible := True, last_seen_time := t\<rparr>) h t) = [] \<and>
            HandTracker_track cfg tr' (t, h # hs) =
              (case handle_swipe cfg (tr'\<lparr>hand_visible := True, last_seen_time := t\<rparr>) h t of
                 (tr1, c1) \<Rightarrow>
                   case handle_stop_gesture cfg tr1 h t of
                     (tr2, c2) \<Rightarrow>
                       case track_loop cfg tr2 hs t of (tr3, c3) \<Rightarrow> (tr3, c2 @ c3))) \<and>
         (\<forall>t h. \<forall>g \<in> set (snd (HandTracker_track cfg tr' (t, [h]))). \<not> is_swipe g) \<and>
         (\<forall>now t h hs.
            snd (handle_swipe cfg
                   ((HandTracker_init now)\<lparr>hand_visible := True, last_seen_time := t\<rparr>) h t) = [] \<and>
            HandTracker_track cfg (HandTracker_init now) (t, h # hs) =
              (case handle_swipe cfg
                      ((HandTracker_init now)\<lparr>hand_visible := True, last_seen_time := t\<rparr>) h t of
                 (tr1, c1) \<Rightarrow>
                   case handle_stop_gesture cfg tr1 h t of
                     (tr2, c2) \<Rightarrow>
                       case track_loop cfg tr2 hs t of (tr3, c3) \<Rightarrow> (tr3, c2 @ c3))) \<and>
         (\<forall>now t h. \<forall>g \<in> set (snd (HandTracker_track cfg (HandTracker_init now) (t, [h]))).
             \<not> is_swipe g)"
proof -
  obtain tr1 c1 where s1: "HandTracker_track cfg tr (t0, []) = (tr1, c1)" by force
  obtain tr2 c2 where s2: "track_frames cfg tr1 gap = (tr2, c2)" by force
  from s1 assms(1,2) have a: "c1 = []" "prev_x tr1 = None"
    by (auto simp: HandTracker_track_def)
  from no_hand_frames_keep_absent [OF assms(3) a(2) s2] have b: "prev_x tr2 = None" "c2 = []"
    by simp_all
  from assms(4) s1 s2 a b have c: "prev_x tr' = None" "calls = []" by auto
  have d: "prev_x (HandTracker_init now) = None" for now by (simp add: HandTracker_init_def)
  show ?thesis
    using c absent_no_swipe [OF c(1)] absent_no_swipe [OF d]
      first_sample_no_swipe [OF c(1)] first_sample_no_swipe [OF d]
    by (intro conjI allI) blast+
qed

text \<open>
  A hand last seen at time 1 and frames without a hand at 3 and 3.5. In a frame of two hands at
  4 the first sample emits no swipe; the second is compared with the first and emits one.
\<close>

theorem reset_frame_then_no_swipe_witness:
  "hand_visible \<lparr>prev_x = Some 0.1, hand_visible = True, last_seen_time = 1, last_gesture_time = 0\<rparr> \<and>
   3 - last_seen_time \<lparr>prev_x = Some 0.1, hand_visible = True, last_seen_time = 1, last_gesture_time = 0\<rparr>
      > VISIBILITY_RESET_TIME config \<and>
   track_frames config
      \<lparr>prev_x = Some 0.1, hand_visible = True, last_seen_time = 1, last_gesture_time = 0\<rparr>
      [(3, []), (3.5, [])] =
     (\<lparr>prev_x = None, hand_visible = False, last_seen_time = 1, last_gesture_time = 0\<rparr>, []) \<and>
   snd (handle_swipe config
      \<lparr>prev_x = None, hand_visible = True, last_seen_time = 4, last_gesture_time = 0\<rparr>
      (hand_at 0.9 0.5 0.5) 4) = [] \<and>
   snd (HandTracker_track config
      \<lparr>prev_x = None, hand_visible = False, last_seen_time = 1, last_gesture_time = 0\<rparr>
      (4, [hand_at 0.9 0.5 0.5, hand_at 0.1 0.5 0.5])) = [Swipe (- 8)]"
proof -
  let ?tr = "\<lparr>prev_x = Some 0.1, hand_visible = True, last_seen_time = 1, last_gesture_time = 0\<rparr>"
  let ?tr' = "\<lparr>prev_x = None, hand_visible = False, last_seen_time = 1, last_gesture_time = 0 :: real\<rparr>"
  have h1: "hand_visible ?tr" and h2: "3 - last_seen_time ?tr > VISIBILITY_RESET_TIME config"
    by (simp_all add: config_def)
  have h3: "\<forall>fr \<in> set [(3.5 :: real, [] :: landmarks list)]. snd fr = []" by simp
  have r: "track_frames config ?tr ((3, []) # [(3.5, [])]) = (?tr', [])"
    by (simp add: HandTracker_track_def config_def)
  from reset_frame_then_no_swipe [OF h1 h2 h3 r]
  have f: "snd (handle_swipe config (?tr'\<lparr>hand_visible := True, last_seen_time := 4\<rparr>)
              (hand_at 0.9 0.5 0.5) 4) = []"
    by blast
  have g: "snd (HandTracker_track config ?tr' (4, [hand_at 0.9 0.5 0.5, hand_at 0.1 0.5 0.5]))
        = [Swipe (- 8)]"
    by (simp add: HandTracker_track_def handle_swipe_def handle_stop_gesture_def
      config_def hand_at_def mean_def Let_def round2_examples)
  from f g h1 h2 r show ?thesis by simp
qed

text \<open>
  Claim C6 as stated fails. The hand is seen at time 10, the only frame without a hand comes
  at 11 (too early for the reset test), and the hand is back at 12, unseen for 2 seconds with
  a reset time of 1.5: the previous position is still there, and the first sample after the
  absence emits a swipe.
\<close>

theorem stale_position_swipe_on_reappearance:
  "12 - 10 > VISIBILITY_RESET_TIME config \<and>
   prev_x (fst (track_frames config (HandTracker_init 9)
      [(10, [hand_at 0.1 0.5 0.5]), (11, [])])) = Some 0.1 \<and>
   snd (track_frames config (HandTracker_init 9)
      [(10, [hand_at 0.1 0.5 0.5]), (11, []), (12, [hand_at 0.9 0.5 0.5])]) = [(12, Swipe 8)]"
  by (simp add: HandTracker_track_def handle_swipe_def handle_stop_gesture_def
      HandTracker_init_def config_def hand_at_def mean_def Let_def round2_examples)

end
